theory Spec2Isabelle
  imports Complex_Main "HOL-Library.Multiset"
begin

section \<open>Python values used by the notebook\<close>

text \<open>
  A Python \<open>float\<close> as the notebook uses it: a finite value (abstracted to a real number),
  the two infinities (\<open>float("inf")\<close> is the initial \<open>best_val_loss\<close>) and NaN.
\<close>

datatype pyfloat = Fin real | PInf | NInf | NaN

text \<open>The comparison \<open>a < b\<close> of two floats: every comparison with NaN is false.\<close>

fun float_lt :: "pyfloat \<Rightarrow> pyfloat \<Rightarrow> bool" where
  "float_lt NaN b = False"
| "float_lt a NaN = False"
| "float_lt (Fin a) (Fin b) = (a < b)"
| "float_lt (Fin a) PInf = True"
| "float_lt (Fin a) NInf = False"
| "float_lt PInf b = False"
| "float_lt NInf NInf = False"
| "float_lt NInf b = True"

fun is_finite :: "pyfloat \<Rightarrow> bool" where
  "is_finite (Fin a) = True"
| "is_finite x = False"

datatype py_error = ZeroDivisionError | IndexError | ValueError

section \<open>Checkpointing and early stopping (training cell, last block of the epoch loop)\<close>

text \<open>
  The variables the early-stopping block reads and writes: \<open>best_val_loss\<close>, \<open>counter\<close>,
  and the files written by \<open>torch.save\<close> (every write, newest first, as path and saved
  model state).
\<close>

record 'm tracker =
  best_val_loss :: pyfloat
  counter :: nat
  checkpoints :: "(string \<times> 'm) list"

datatype signal = Continue | Stop

definition patience :: nat where
  "patience = 2"

definition torch_save :: "'m \<Rightarrow> string \<Rightarrow> (string \<times> 'm) list \<Rightarrow> (string \<times> 'm) list" where
  "torch_save m path files = (path, m) # files"

text \<open>The file contents after the writes: the newest write to a path wins.\<close>

definition torch_load :: "string \<Rightarrow> (string \<times> 'm) list \<Rightarrow> 'm option" where
  "torch_load path files = map_of files path"

text \<open>
  \<^verbatim>\<open>
  if avg_val_loss < best_val_loss:
      best_val_loss = avg_val_loss
      counter = 0
      torch.save(model.state_dict(), "best_model.pth")
  else:
      counter += 1
      if counter >= patience:
          break
  \<close>
  \<open>Stop\<close> is the \<open>break\<close>; \<open>m\<close> is \<open>model.state_dict()\<close> at the end of the epoch.
\<close>

definition early_stopping_check :: "'m \<Rightarrow> pyfloat \<Rightarrow> 'm tracker \<Rightarrow> signal \<times> 'm tracker" where
  "early_stopping_check m avg_val_loss s =
     (if float_lt avg_val_loss (best_val_loss s)
      then (Continue, s\<lparr>best_val_loss := avg_val_loss, counter := 0,
                        checkpoints := torch_save m ''best_model.pth'' (checkpoints s)\<rparr>)
      else (let s' = s\<lparr>counter := counter s + 1\<rparr>
            in if counter s' \<ge> patience then (Stop, s') else (Continue, s')))"

text \<open>\<open>best_val_loss = float("inf")\<close>, \<open>counter = 0\<close>, nothing saved yet.\<close>

definition init_tracker :: "'m tracker" where
  "init_tracker = \<lparr>best_val_loss = PInf, counter = 0, checkpoints = []\<rparr>"

text \<open>
  The epoch loop seen from the early-stopping block: epoch after epoch it is given the
  model state and the \<open>avg_val_loss\<close> of that epoch, and the loop ends at the first
  \<open>break\<close>. The result lists, for every epoch that ran, the signal and the variables after it.
\<close>

fun feed :: "'m tracker \<Rightarrow> ('m \<times> pyfloat) list \<Rightarrow> (signal \<times> 'm tracker) list" where
  "feed s [] = []"
| "feed s ((m, v) # rest) =
     (case early_stopping_check m v s of
        (Stop, s') \<Rightarrow> [(Stop, s')]
      | (Continue, s') \<Rightarrow> (Continue, s') # feed s' rest)"

text \<open>The variables after the epochs that ran.\<close>

definition final :: "'m tracker \<Rightarrow> ('m \<times> pyfloat) list \<Rightarrow> 'm tracker" where
  "final s obs = last (s # map snd (feed s obs))"

definition strictly_decreasing :: "pyfloat list \<Rightarrow> bool" where
  "strictly_decreasing vs = sorted_wrt (\<lambda>a b. float_lt b a) vs"

text \<open>
  The checkpoint files present after the writes, and the number of \<open>torch.save\<close> calls so far.
\<close>

definition retained :: "'m tracker \<Rightarrow> string set" where
  "retained s = set (map fst (checkpoints s))"

definition n_saves :: "'m tracker \<Rightarrow> nat" where
  "n_saves s = length (checkpoints s)"

text \<open>
  What the early-stopping variables record about the losses \<open>hs\<close> observed so far: the best
  loss is the initial infinity or a finite loss, a finite loss is below it exactly when it is
  below every observed loss, and only the one checkpoint path has been written.
\<close>

definition tracker_inv :: "'m tracker \<Rightarrow> pyfloat list \<Rightarrow> bool" where
  "tracker_inv s hs \<longleftrightarrow>
     (best_val_loss s = PInf \<or> is_finite (best_val_loss s)) \<and>
     (\<forall>v. is_finite v \<longrightarrow> (float_lt v (best_val_loss s) \<longleftrightarrow> (\<forall>h \<in> set hs. float_lt v h))) \<and>
     set (map fst (checkpoints s)) \<subseteq> {''best_model.pth''}"

section \<open>Dataset preparation (word-count and filtering cells, test cell)\<close>

text \<open>
  A Python \<open>str\<close> is a sequence of Unicode code points. \<open>isspace\<close> is the whitespace test
  that \<open>str.split()\<close> uses (the code points with \<open>str.isspace()\<close> true).
\<close>

type_synonym pystr = "nat list"

definition isspace :: "nat \<Rightarrow> bool" where
  "isspace c \<longleftrightarrow>
     c \<in> set [9, 10, 11, 12, 13, 28, 29, 30, 31, 32, 133, 160, 5760,
               8232, 8233, 8239, 8287, 12288] \<or> (8192 \<le> c \<and> c \<le> 8202)"

text \<open>
  \<open>text.split()\<close> without arguments: runs of whitespace separate the words, and there are
  no empty words. \<open>w\<close> is the word being read.
\<close>

fun split_ws :: "pystr \<Rightarrow> pystr \<Rightarrow> pystr list" where
  "split_ws [] w = (if w = [] then [] else [w])"
| "split_ws (c # cs) w =
     (if isspace c then (if w = [] then split_ws cs [] else w # split_ws cs [])
      else split_ws cs (w @ [c]))"

definition str_split :: "pystr \<Rightarrow> pystr list" where
  "str_split s = split_ws s []"

text \<open>An example of the dataset: the columns \<open>text\<close> and \<open>label\<close>, and \<open>word_count\<close> once added.\<close>

record example =
  text_col :: pystr
  label :: nat
  word_count :: "nat option"

text \<open>
  \<^verbatim>\<open>
  def compute_word_count(example):
      example["word_count"] = len(example["text"].split())
      return example

  def filter_under_300_words(example):
      return len(example["text"].split()) < 300
  \<close>
\<close>

definition compute_word_count :: "example \<Rightarrow> example" where
  "compute_word_count ex = ex\<lparr>word_count := Some (length (str_split (text_col ex)))\<rparr>"

definition filter_under_300_words :: "example \<Rightarrow> bool" where
  "filter_under_300_words ex \<longleftrightarrow> length (str_split (text_col ex)) < 300"

text \<open>
  The operations of the \<open>datasets\<close> library on a split, a list of examples: \<open>map\<close>, \<open>filter\<close>,
  and \<open>select(range(n))\<close>. \<open>select\<close> returns an empty dataset as it is
  (\<open>if len(self) == 0: return self\<close>) and otherwise checks the first and the last index of
  the range, raising \<open>IndexError\<close> when one is out of range.
  \<open>shuffle(seed=42)\<close> and \<open>train_test_split(test_size=0.2, seed=42)\<close> are parameters of the
  model: a permutation of the split, and a division of the split into two parts, which may
  raise instead (the library refuses a division with an empty part).
\<close>

definition dataset_map :: "(example \<Rightarrow> example) \<Rightarrow> example list \<Rightarrow> example list" where
  "dataset_map f d = map f d"

definition dataset_filter :: "(example \<Rightarrow> bool) \<Rightarrow> example list \<Rightarrow> example list" where
  "dataset_filter p d = filter p d"

definition select_range :: "nat \<Rightarrow> 'a list \<Rightarrow> py_error + 'a list" where
  "select_range n d =
     (if d = [] then Inr []
      else if n \<le> length d then Inr (take n d)
      else Inl IndexError)"

definition is_shuffle :: "(example list \<Rightarrow> example list) \<Rightarrow> bool" where
  "is_shuffle shuffle \<longleftrightarrow> (\<forall>d. mset (shuffle d) = mset d)"

definition is_train_test_split ::
  "(example list \<Rightarrow> py_error + example list \<times> example list) \<Rightarrow> bool" where
  "is_train_test_split tts \<longleftrightarrow>
     (\<forall>d train test. tts d = Inr (train, test) \<longrightarrow> mset train + mset test = mset d)"

text \<open>
  \<^verbatim>\<open>
  filtered_dataset = ds.filter(filter_under_300_words)
  filtered_train, filtered_val = filtered_dataset["train"].train_test_split(test_size=0.2, seed=42).values()
  small_train_dataset = filtered_train.shuffle(seed=42).select(range(3000))
  small_val_dataset = filtered_val.shuffle(seed=42).select(range(3000))
  ...
  filtered_test = ds["test"].map(compute_word_count).filter(filter_under_300_words)
  small_test_dataset = filtered_test.shuffle(seed=42).select(range(3000))
  \<close>
  \<open>ds_train\<close> and \<open>ds_test\<close> are the splits \<open>ds["train"]\<close> and \<open>ds["test"]\<close>.
\<close>

definition filtered_train_val ::
  "(example list \<Rightarrow> py_error + example list \<times> example list) \<Rightarrow> example list \<Rightarrow>
   py_error + example list \<times> example list" where
  "filtered_train_val tts ds_train = tts (dataset_filter filter_under_300_words ds_train)"

definition filtered_test :: "example list \<Rightarrow> example list" where
  "filtered_test ds_test = dataset_filter filter_under_300_words (dataset_map compute_word_count ds_test)"

definition small_train_dataset ::
  "(example list \<Rightarrow> example list) \<Rightarrow> (example list \<Rightarrow> py_error + example list \<times> example list) \<Rightarrow>
   example list \<Rightarrow> py_error + example list" where
  "small_train_dataset shuffle tts ds_train =
     (case filtered_train_val tts ds_train of
        Inl e \<Rightarrow> Inl e
      | Inr (filtered_train, filtered_val) \<Rightarrow> select_range 3000 (shuffle filtered_train))"

definition small_val_dataset ::
  "(example list \<Rightarrow> example list) \<Rightarrow> (example list \<Rightarrow> py_error + example list \<times> example list) \<Rightarrow>
   example list \<Rightarrow> py_error + example list" where
  "small_val_dataset shuffle tts ds_train =
     (case filtered_train_val tts ds_train of
        Inl e \<Rightarrow> Inl e
      | Inr (filtered_train, filtered_val) \<Rightarrow> select_range 3000 (shuffle filtered_val))"

definition small_test_dataset ::
  "(example list \<Rightarrow> example list) \<Rightarrow> example list \<Rightarrow> py_error + example list" where
  "small_test_dataset shuffle ds_test = select_range 3000 (shuffle (filtered_test ds_test))"

text \<open>
  The number of whitespace-separated words of a text, counted without splitting: the
  characters that are not whitespace and stand at the start of the text or after a
  whitespace character.
\<close>

fun count_word_starts :: "bool \<Rightarrow> pystr \<Rightarrow> nat" where
  "count_word_starts after_space [] = 0"
| "count_word_starts after_space (c # cs) =
     (if \<not> isspace c \<and> after_space then 1 else 0) + count_word_starts (isspace c) cs"

definition number_of_words :: "pystr \<Rightarrow> nat" where
  "number_of_words s = count_word_starts True s"

text \<open>A sample review, "hi ho", with label 1.\<close>

definition sample_review :: example where
  "sample_review = \<lparr>text_col = [104, 105, 32, 104, 111], label = 1, word_count = None\<rparr>"

section \<open>Batch source (DataLoader cell)\<close>

text \<open>
  The batches of one pass of a \<open>DataLoader\<close> (the batch sampler of \<open>torch.utils.data\<close>):
  the examples are taken in order, a batch is yielded when it has \<open>batch_size\<close> examples,
  and an unfinished last batch is yielded unless \<open>drop_last\<close>.
  \<^verbatim>\<open>
  batch = []
  for idx in sampler:
      batch.append(idx)
      if len(batch) == batch_size:
          yield batch
          batch = []
  if len(batch) > 0 and not drop_last:
      yield batch
  \<close>
\<close>

fun batch_sampler :: "nat \<Rightarrow> bool \<Rightarrow> 'a list \<Rightarrow> 'a list \<Rightarrow> 'a list list" where
  "batch_sampler batch_size drop_last [] batch =
     (if length batch > 0 \<and> \<not> drop_last then [batch] else [])"
| "batch_sampler batch_size drop_last (x # xs) batch =
     (if length (batch @ [x]) = batch_size
      then (batch @ [x]) # batch_sampler batch_size drop_last xs []
      else batch_sampler batch_size drop_last xs (batch @ [x]))"

text \<open>
  \<open>order\<close> is the order of the pass: the permutation drawn for this pass when
  \<open>shuffle=True\<close>, the dataset order otherwise.
\<close>

definition DataLoader :: "'a list \<Rightarrow> ('a list \<Rightarrow> 'a list) \<Rightarrow> nat \<Rightarrow> bool \<Rightarrow> 'a list list" where
  "DataLoader dataset order batch_size drop_last =
     batch_sampler batch_size drop_last (order dataset) []"

text \<open>
  \<^verbatim>\<open>
  train_dataloader = DataLoader(tokenized_small_train_dataset, shuffle=True, batch_size=8, drop_last=True, ...)
  val_dataloader = DataLoader(tokenized_small_val_dataset, batch_size=8, drop_last=False)
  test_dataloader = DataLoader(tokenized_small_test_dataset, batch_size=8)
  \<close>
\<close>

definition train_dataloader :: "('a list \<Rightarrow> 'a list) \<Rightarrow> 'a list \<Rightarrow> 'a list list" where
  "train_dataloader permutation dataset = DataLoader dataset permutation 8 True"

definition val_dataloader :: "'a list \<Rightarrow> 'a list list" where
  "val_dataloader dataset = DataLoader dataset (\<lambda>d. d) 8 False"

definition test_dataloader :: "'a list \<Rightarrow> 'a list list" where
  "test_dataloader dataset = DataLoader dataset (\<lambda>d. d) 8 False"

section \<open>Evaluation metrics (the sklearn.metrics calls of the training and test cells)\<close>

text \<open>
  \<^verbatim>\<open>
  accuracy = accuracy_score(all_labels, all_predictions)
  f1 = f1_score(all_labels, all_predictions, average="binary")
  precision = precision_score(all_labels, all_predictions, average="binary")
  recall = recall_score(all_labels, all_predictions, average="binary")
  \<close>
  \<open>y_true\<close> and \<open>y_pred\<close> are the collected labels and predictions, class numbers 0 and 1;
  the positive class is 1 (\<open>pos_label=1\<close>). The library counts the true positives, the
  predicted positives and the actual positives, and a division by a zero count gives 0
  (\<open>zero_division="warn"\<close>). The result is \<open>None\<close> where the library gives no number: lists
  of different lengths and, for the binary scores, labels other than 0 and 1 raise
  \<open>ValueError\<close>; for empty lists the answer depends on the library version, and the notebook
  never gets there (the division by \<open>len(val_dataloader)\<close> raises before).
\<close>

definition consistent_length :: "nat list \<Rightarrow> nat list \<Rightarrow> bool" where
  "consistent_length y_true y_pred \<longleftrightarrow> length y_true = length y_pred \<and> y_true \<noteq> []"

definition binary_targets :: "nat list \<Rightarrow> nat list \<Rightarrow> bool" where
  "binary_targets y_true y_pred \<longleftrightarrow> list_all (\<lambda>c. c = 0 \<or> c = 1) (y_true @ y_pred)"

definition tp_sum :: "nat list \<Rightarrow> nat list \<Rightarrow> nat" where
  "tp_sum y_true y_pred = length (filter (\<lambda>(t, p). t = 1 \<and> p = 1) (zip y_true y_pred))"

definition predicted_sum :: "nat list \<Rightarrow> nat" where
  "predicted_sum y_pred = length (filter (\<lambda>p. p = 1) y_pred)"

definition true_sum :: "nat list \<Rightarrow> nat" where
  "true_sum y_true = length (filter (\<lambda>t. t = 1) y_true)"

definition prf_divide :: "nat \<Rightarrow> nat \<Rightarrow> real" where
  "prf_divide numerator denominator =
     (if denominator = 0 then 0 else real numerator / real denominator)"

definition accuracy_score :: "nat list \<Rightarrow> nat list \<Rightarrow> real option" where
  "accuracy_score y_true y_pred =
     (if consistent_length y_true y_pred
      then Some (real (length (filter (\<lambda>(t, p). t = p) (zip y_true y_pred))) / real (length y_true))
      else None)"

definition precision_score :: "nat list \<Rightarrow> nat list \<Rightarrow> real option" where
  "precision_score y_true y_pred =
     (if consistent_length y_true y_pred \<and> binary_targets y_true y_pred
      then Some (prf_divide (tp_sum y_true y_pred) (predicted_sum y_pred))
      else None)"

definition recall_score :: "nat list \<Rightarrow> nat list \<Rightarrow> real option" where
  "recall_score y_true y_pred =
     (if consistent_length y_true y_pred \<and> binary_targets y_true y_pred
      then Some (prf_divide (tp_sum y_true y_pred) (true_sum y_true))
      else None)"

definition f1_score :: "nat list \<Rightarrow> nat list \<Rightarrow> real option" where
  "f1_score y_true y_pred =
     (if consistent_length y_true y_pred \<and> binary_targets y_true y_pred
      then Some (prf_divide (2 * tp_sum y_true y_pred) (true_sum y_true + predicted_sum y_pred))
      else None)"









section \<open>Inference (Gradio cell)\<close>

text \<open>
  The model output for one text is a row of two logits, here real numbers.
  \<open>F.softmax(outputs.logits, dim=-1)\<close> on that row, computed as the library does, with the
  maximum subtracted before the exponential; \<open>torch.argmax\<close> gives the index of the maximum,
  the first one if both entries are equal.
\<close>

definition softmax :: "real \<times> real \<Rightarrow> real \<times> real" where
  "softmax logits =
     (let m = max (fst logits) (snd logits);
          e0 = exp (fst logits - m);
          e1 = exp (snd logits - m)
      in (e0 / (e0 + e1), e1 / (e0 + e1)))"

definition argmax :: "real \<times> real \<Rightarrow> nat" where
  "argmax row = (if fst row < snd row then 1 else 0)"

definition item :: "real \<times> real \<Rightarrow> nat \<Rightarrow> real" where
  "item row i = (if i = 0 then fst row else snd row)"

text \<open>
  The format \<open>{confidence:.2f}\<close>: the value rounded to two decimals, an exact tie going to
  the even neighbour, written with its sign, its integer digits, a point and two digits.
\<close>

definition round_half_even :: "real \<Rightarrow> int" where
  "round_half_even x =
     (let f = \<lfloor>x\<rfloor>; d = x - of_int f
      in if d < 1 / 2 then f
         else if 1 / 2 < d then f + 1
         else if even f then f else f + 1)"

definition digit_char :: "nat \<Rightarrow> char" where
  "digit_char d = ''0123456789'' ! d"

fun decimal :: "nat \<Rightarrow> string" where
  "decimal n = (if n < 10 then [digit_char n] else decimal (n div 10) @ [digit_char (n mod 10)])"

definition hundredths :: "real \<Rightarrow> nat" where
  "hundredths x = nat (round_half_even (\<bar>x\<bar> * 100))"

definition format_2f :: "real \<Rightarrow> string" where
  "format_2f x =
     (if x < 0 then ''-'' else []) @ decimal (hundredths x div 100) @ ''.'' @
     [digit_char (hundredths x mod 100 div 10), digit_char (hundredths x mod 10)]"

text \<open>
  \<^verbatim>\<open>
  def classify_text(text):
      inputs = tokenizer(text, return_tensors="pt", padding=True, truncation=True)
      inputs = {k: v.to(device) for k, v in inputs.items()}
      with torch.no_grad():
          outputs = model(**inputs)
          probabilities = F.softmax(outputs.logits, dim=-1)
          prediction = torch.argmax(probabilities, dim=-1).item()
          confidence = probabilities[0][prediction].item()
      label = "Positive" if prediction == 1 else "Negative"
      return f"{label} ({confidence:.2f} confidence)"
  \<close>
  \<open>model\<close> is the tokenizer followed by the model with the loaded checkpoint: from the text
  to the row of logits. \<open>predict\<close> is the \<open>with\<close> block: the prediction and the confidence.
\<close>

definition predict :: "(pystr \<Rightarrow> real \<times> real) \<Rightarrow> pystr \<Rightarrow> nat \<times> real" where
  "predict model text =
     (let probabilities = softmax (model text);
          prediction = argmax probabilities;
          confidence = item probabilities prediction
      in (prediction, confidence))"

definition classify_text :: "(pystr \<Rightarrow> real \<times> real) \<Rightarrow> pystr \<Rightarrow> string" where
  "classify_text model text =
     (let (prediction, confidence) = predict model text;
          label = (if prediction = 1 then ''Positive'' else ''Negative'')
      in label @ '' ('' @ format_2f confidence @ '' confidence)'')"

section \<open>The training cell\<close>

text \<open>
  Float addition (\<open>total += loss.item()\<close>) and the true division of a total by a batch
  count, \<open>total / len(dataloader)\<close>: Python raises \<open>ZeroDivisionError\<close> for a zero divisor,
  also when the dividend is the integer 0 the totals start from.
\<close>

fun fadd :: "pyfloat \<Rightarrow> pyfloat \<Rightarrow> pyfloat" where
  "fadd NaN b = NaN"
| "fadd a NaN = NaN"
| "fadd (Fin a) (Fin b) = Fin (a + b)"
| "fadd PInf NInf = NaN"
| "fadd NInf PInf = NaN"
| "fadd PInf b = PInf"
| "fadd a PInf = PInf"
| "fadd NInf b = NInf"
| "fadd a NInf = NInf"

definition truediv :: "pyfloat \<Rightarrow> nat \<Rightarrow> py_error + pyfloat" where
  "truediv total_loss n =
     (if n = 0 then Inl ZeroDivisionError
      else Inr (case total_loss of Fin a \<Rightarrow> Fin (a / real n) | x \<Rightarrow> x))"

text \<open>\<open>len(dataloader)\<close> for a dataset of \<open>n\<close> examples.\<close>

definition dataloader_len :: "bool \<Rightarrow> nat \<Rightarrow> nat \<Rightarrow> nat" where
  "dataloader_len drop_last batch_size n =
     (if drop_last then n div batch_size else (n + batch_size - 1) div batch_size)"

text \<open>
  The model, the optimizer and the scheduler are opaque: \<open>train_step\<close> is the body of the
  training \<open>for\<close> loop on one batch (forward pass, \<open>loss.backward()\<close>, \<open>optimizer.step()\<close>,
  \<open>lr_scheduler.step()\<close>, \<open>optimizer.zero_grad()\<close>), from the state before the batch to
  \<open>loss.item()\<close> and the state after it; \<open>eval_step\<close> is the body of the validation loop,
  giving \<open>loss.item()\<close>, the predictions and the labels of the batch.
\<close>

fun training_phase ::
  "('m \<Rightarrow> 'x list \<Rightarrow> pyfloat \<times> 'm) \<Rightarrow> 'x list list \<Rightarrow> 'm \<Rightarrow> pyfloat \<Rightarrow> 'm \<times> pyfloat" where
  "training_phase train_step [] m total_train_loss = (m, total_train_loss)"
| "training_phase train_step (batch # rest) m total_train_loss =
     (case train_step m batch of
        (loss, m') \<Rightarrow> training_phase train_step rest m' (fadd total_train_loss loss))"

fun evaluation_phase ::
  "('m \<Rightarrow> 'x list \<Rightarrow> pyfloat \<times> nat list \<times> nat list) \<Rightarrow> 'x list list \<Rightarrow> 'm \<Rightarrow>
   pyfloat \<Rightarrow> nat list \<Rightarrow> nat list \<Rightarrow> pyfloat \<times> nat list \<times> nat list" where
  "evaluation_phase eval_step [] m total_val_loss all_predictions all_labels =
     (total_val_loss, all_predictions, all_labels)"
| "evaluation_phase eval_step (batch # rest) m total_val_loss all_predictions all_labels =
     (case eval_step m batch of
        (loss, predictions, labels) \<Rightarrow>
          evaluation_phase eval_step rest m (fadd total_val_loss loss)
            (all_predictions @ predictions) (all_labels @ labels))"

text \<open>The lines an epoch prints: the two average losses and the four validation metrics.\<close>

datatype event =
  AvgTrainLoss nat pyfloat
| AvgValLoss nat pyfloat
| ValidationMetrics real real real real

text \<open>
  One iteration of \<open>for epoch in range(num_epochs)\<close> up to the early-stopping block, from
  the model state before it: the printed lines, and either the exception that ends the cell
  or the model state after the epoch with its \<open>avg_val_loss\<close>. A metric without a value is
  the \<open>ValueError\<close> of the library.
\<close>

definition epoch_body ::
  "('m \<Rightarrow> 'x list \<Rightarrow> pyfloat \<times> 'm) \<Rightarrow> ('m \<Rightarrow> 'x list \<Rightarrow> pyfloat \<times> nat list \<times> nat list) \<Rightarrow>
   nat \<Rightarrow> 'x list list \<Rightarrow> nat \<Rightarrow> 'x list list \<Rightarrow> nat \<Rightarrow> 'm \<Rightarrow>
   event list \<times> (py_error + 'm \<times> pyfloat)" where
  "epoch_body train_step eval_step epoch train_batches len_train val_batches len_val m =
     (case training_phase train_step train_batches m (Fin 0) of
        (m', total_train_loss) \<Rightarrow>
     (case truediv total_train_loss len_train of
        Inl err \<Rightarrow> ([], Inl err)
      | Inr avg_train_loss \<Rightarrow>
     (case evaluation_phase eval_step val_batches m' (Fin 0) [] [] of
        (total_val_loss, all_predictions, all_labels) \<Rightarrow>
     (case truediv total_val_loss len_val of
        Inl err \<Rightarrow> ([AvgTrainLoss (epoch + 1) avg_train_loss], Inl err)
      | Inr avg_val_loss \<Rightarrow>
     (case (accuracy_score all_labels all_predictions, f1_score all_labels all_predictions,
            precision_score all_labels all_predictions, recall_score all_labels all_predictions) of
        (Some accuracy, Some f1, Some precision, Some recall) \<Rightarrow>
          ([AvgTrainLoss (epoch + 1) avg_train_loss, AvgValLoss (epoch + 1) avg_val_loss,
            ValidationMetrics accuracy f1 precision recall],
           Inr (m', avg_val_loss))
      | _ \<Rightarrow>
          ([AvgTrainLoss (epoch + 1) avg_train_loss, AvgValLoss (epoch + 1) avg_val_loss],
           Inl ValueError))))))"

text \<open>
  The loop over the epochs, each ending with the early-stopping block. \<open>permutation epoch\<close>
  is the order the shuffling training loader draws for the pass of that epoch; \<open>train\<close> and
  \<open>val\<close> are the tokenized partitions the two loaders were built on.
\<close>

fun training_loop ::
  "('m \<Rightarrow> 'x list \<Rightarrow> pyfloat \<times> 'm) \<Rightarrow> ('m \<Rightarrow> 'x list \<Rightarrow> pyfloat \<times> nat list \<times> nat list) \<Rightarrow>
   (nat \<Rightarrow> 'x list \<Rightarrow> 'x list) \<Rightarrow> 'x list \<Rightarrow> 'x list \<Rightarrow> nat list \<Rightarrow> 'm \<Rightarrow> 'm tracker \<Rightarrow>
   event list \<times> (py_error + 'm \<times> 'm tracker)" where
  "training_loop train_step eval_step permutation train val [] m s = ([], Inr (m, s))"
| "training_loop train_step eval_step permutation train val (epoch # rest) m s =
     (case epoch_body train_step eval_step epoch
             (train_dataloader (permutation epoch) train) (dataloader_len True 8 (length train))
             (val_dataloader val) (dataloader_len False 8 (length val)) m of
        (out, Inl err) \<Rightarrow> (out, Inl err)
      | (out, Inr (m', avg_val_loss)) \<Rightarrow>
          (case early_stopping_check m' avg_val_loss s of
             (Stop, s') \<Rightarrow> (out, Inr (m', s'))
           | (Continue, s') \<Rightarrow>
               (case training_loop train_step eval_step permutation train val rest m' s' of
                  (out', r) \<Rightarrow> (out @ out', r))))"

text \<open>
  The model states and validation losses that the epochs hand to the early-stopping block,
  up to the first exception: the training itself does not depend on the early-stopping
  variables.
\<close>

fun observed ::
  "('m \<Rightarrow> 'x list \<Rightarrow> pyfloat \<times> 'm) \<Rightarrow> ('m \<Rightarrow> 'x list \<Rightarrow> pyfloat \<times> nat list \<times> nat list) \<Rightarrow>
   (nat \<Rightarrow> 'x list \<Rightarrow> 'x list) \<Rightarrow> 'x list \<Rightarrow> 'x list \<Rightarrow> nat list \<Rightarrow> 'm \<Rightarrow>
   ('m \<times> pyfloat) list" where
  "observed train_step eval_step permutation train val [] m = []"
| "observed train_step eval_step permutation train val (epoch # rest) m =
     (case epoch_body train_step eval_step epoch
             (train_dataloader (permutation epoch) train) (dataloader_len True 8 (length train))
             (val_dataloader val) (dataloader_len False 8 (length val)) m of
        (out, Inl err) \<Rightarrow> []
      | (out, Inr (m', avg_val_loss)) \<Rightarrow>
          (m', avg_val_loss) # observed train_step eval_step permutation train val rest m')"

definition num_epochs :: nat where
  "num_epochs = 5"


definition training ::
  "('m \<Rightarrow> 'x list \<Rightarrow> pyfloat \<times> 'm) \<Rightarrow> ('m \<Rightarrow> 'x list \<Rightarrow> pyfloat \<times> nat list \<times> nat list) \<Rightarrow>
   (nat \<Rightarrow> 'x list \<Rightarrow> 'x list) \<Rightarrow> 'x list \<Rightarrow> 'x list \<Rightarrow> 'm \<Rightarrow>
   event list \<times> (py_error + 'm \<times> 'm tracker)" where
  "training train_step eval_step permutation train val m =
     training_loop train_step eval_step permutation train val [0..<num_epochs] m init_tracker"

declare decimal.simps [simp del]

section \<open>Properties of the early-stopping block\<close>

lemma float_lt_trans: "float_lt a b \<Longrightarrow> float_lt b c \<Longrightarrow> float_lt a c"
  by (cases a; cases b; cases c) auto

lemma check_improving:
  "float_lt v (best_val_loss s) \<Longrightarrow>
   early_stopping_check m v s =
     (Continue, s\<lparr>best_val_loss := v, counter := 0,
                  checkpoints := (''best_model.pth'', m) # checkpoints s\<rparr>)"
  by (simp add: early_stopping_check_def torch_save_def)

lemma check_not_improving:
  "\<not> float_lt v (best_val_loss s) \<Longrightarrow>
   early_stopping_check m v s =
     (if counter s + 1 \<ge> 2 then Stop else Continue, s\<lparr>counter := counter s + 1\<rparr>)"
  by (simp add: early_stopping_check_def patience_def Let_def)

lemma feed_decreasing:
  "sorted_wrt (\<lambda>a b. float_lt b a) (best_val_loss s # map snd obs) \<Longrightarrow>
   map fst (feed s obs) = replicate (length obs) Continue \<and>
   map (best_val_loss \<circ> snd) (feed s obs) = map snd obs"
proof (induction obs arbitrary: s)
  case Nil
  then show ?case by simp
next
  case (Cons o1 obs)
  obtain m v where o1: "o1 = (m, v)" by (cases o1)
  from Cons.prems o1 have lt: "float_lt v (best_val_loss s)" by simp
  let ?s' = "s\<lparr>best_val_loss := v, counter := 0,
               checkpoints := (''best_model.pth'', m) # checkpoints s\<rparr>"
  from Cons.prems o1 have "sorted_wrt (\<lambda>a b. float_lt b a) (best_val_loss ?s' # map snd obs)"
    by simp
  from Cons.IH [OF this] show ?case
    using o1 check_improving [OF lt, of m] by simp
qed

lemma feed_append:
  "map fst (feed s pre) = replicate (length pre) Continue \<Longrightarrow>
   feed s (pre @ rest) = feed s pre @ feed (final s pre) rest"
proof (induction pre arbitrary: s)
  case Nil
  then show ?case by (simp add: final_def)
next
  case (Cons o1 pre)
  obtain m v where o1: "o1 = (m, v)" by (cases o1)
  obtain sg s' where chk: "early_stopping_check m v s = (sg, s')"
    by (cases "early_stopping_check m v s")
  show ?case
  proof (cases sg)
    case Continue
    with Cons.prems o1 chk have "map fst (feed s' pre) = replicate (length pre) Continue"
      by simp
    from Cons.IH [OF this] show ?thesis
      using o1 chk Continue by (simp add: final_def)
  next
    case Stop
    with Cons.prems o1 chk show ?thesis by simp
  qed
qed

lemma feed_two_not_improving:
  assumes "counter s = 0"
    and "\<not> float_lt a (best_val_loss s)" and "\<not> float_lt b (best_val_loss s)"
  shows "feed s [(ma, a), (mb, b)] = [(Continue, s\<lparr>counter := 1\<rparr>), (Stop, s\<lparr>counter := 2\<rparr>)]"
  using assms by (simp add: check_not_improving)

subsection \<open>The best loss is the minimum of the observed losses\<close>

lemma tracker_inv_init: "tracker_inv init_tracker []"
  by (auto simp: tracker_inv_def init_tracker_def elim: is_finite.elims)

lemma float_lt_chain: "is_finite v \<Longrightarrow> is_finite b \<or> b = PInf \<Longrightarrow> \<not> float_lt v b \<Longrightarrow> float_lt w b \<Longrightarrow> float_lt w v"
  by (cases v; cases b; cases w) auto

lemma check_inv:
  assumes "tracker_inv s hs" and "is_finite v" and "early_stopping_check m v s = (sg, s')"
  shows "tracker_inv s' (v # hs)"
    and "(checkpoints s' \<noteq> checkpoints s) = (\<forall>h \<in> set hs. float_lt v h)"
    and "checkpoints s' \<noteq> checkpoints s \<longrightarrow> checkpoints s' = (''best_model.pth'', m) # checkpoints s"
proof -
  from assms(1,2) have eq: "float_lt v (best_val_loss s) \<longleftrightarrow> (\<forall>h \<in> set hs. float_lt v h)"
    by (simp add: tracker_inv_def)
  show "(checkpoints s' \<noteq> checkpoints s) = (\<forall>h \<in> set hs. float_lt v h)"
    using assms(3) eq
    by (cases "float_lt v (best_val_loss s)") (auto simp: check_improving check_not_improving)
  show "checkpoints s' \<noteq> checkpoints s \<longrightarrow> checkpoints s' = (''best_model.pth'', m) # checkpoints s"
    using assms(3)
    by (cases "float_lt v (best_val_loss s)") (auto simp: check_improving check_not_improving)
  show "tracker_inv s' (v # hs)"
  proof (cases "float_lt v (best_val_loss s)")
    case True
    with assms(3) have s': "s' = s\<lparr>best_val_loss := v, counter := 0,
                  checkpoints := (''best_model.pth'', m) # checkpoints s\<rparr>"
      by (simp add: check_improving)
    have "\<And>w. float_lt w v \<Longrightarrow> (\<forall>h \<in> set hs. float_lt w h)"
      using eq True float_lt_trans by blast
    with assms(1,2) show ?thesis
      unfolding tracker_inv_def s' by auto
  next
    case False
    with assms(3) have s': "s' = s\<lparr>counter := counter s + 1\<rparr>"
      by (simp add: check_not_improving)
    have "\<And>w. float_lt w (best_val_loss s) \<Longrightarrow> float_lt w v"
      using float_lt_chain [OF assms(2) _ False] assms(1) by (auto simp: tracker_inv_def)
    with assms(1,2) show ?thesis
      unfolding tracker_inv_def s' by auto
  qed
qed

lemma feed_saves:
  assumes "tracker_inv s hs" and "\<forall>v \<in> set (map snd obs). is_finite v" and "k < length (feed s obs)"
  shows "(checkpoints (snd (feed s obs ! k)) \<noteq> checkpoints ((s # map snd (feed s obs)) ! k))
           = (\<forall>h \<in> set hs \<union> set (take k (map snd obs)). float_lt (snd (obs ! k)) h) \<and>
         (checkpoints (snd (feed s obs ! k)) \<noteq> checkpoints ((s # map snd (feed s obs)) ! k)
           \<longrightarrow> checkpoints (snd (feed s obs ! k)) =
                (''best_model.pth'', fst (obs ! k)) # checkpoints ((s # map snd (feed s obs)) ! k)) \<and>
         set (map fst (checkpoints (snd (feed s obs ! k)))) \<subseteq> {''best_model.pth''}"
  using assms
proof (induction obs arbitrary: s hs k)
  case Nil
  then show ?case by simp
next
  case (Cons o1 obs)
  obtain m v where o1: "o1 = (m, v)" by (cases o1)
  obtain sg s' where chk: "early_stopping_check m v s = (sg, s')"
    by (cases "early_stopping_check m v s")
  from Cons.prems(2) o1 have fv: "is_finite v" by simp
  note ci = check_inv [OF Cons.prems(1) fv chk]
  show ?case
  proof (cases k)
    case 0
    have "feed s (o1 # obs) ! 0 = (sg, s')"
      using o1 chk by (cases sg) simp_all
    with 0 ci o1 show ?thesis by (simp add: tracker_inv_def)
  next
    case (Suc k')
    with Cons.prems(3) o1 chk have sg: "sg = Continue"
      by (cases sg) simp_all
    with o1 chk have fd: "feed s (o1 # obs) = (Continue, s') # feed s' obs" by simp
    with Cons.prems(3) Suc have k': "k' < length (feed s' obs)" by simp
    from Cons.prems(2) have "\<forall>v \<in> set (map snd obs). is_finite v" by simp
    from Cons.IH [OF ci(1) this k'] show ?thesis
      using Suc fd o1 by (simp add: Un_commute insert_commute)
  qed
qed

lemma feed_nth:
  "k < length (feed s obs) \<Longrightarrow>
   feed s obs ! k =
     early_stopping_check (fst (obs ! k)) (snd (obs ! k)) ((s # map snd (feed s obs)) ! k)"
proof (induction obs arbitrary: s k)
  case Nil
  then show ?case by simp
next
  case (Cons o1 obs)
  obtain m v where o1: "o1 = (m, v)" by (cases o1)
  obtain sg s' where chk: "early_stopping_check m v s = (sg, s')"
    by (cases "early_stopping_check m v s")
  show ?case
  proof (cases k)
    case 0
    then show ?thesis using o1 chk by (cases sg) simp_all
  next
    case (Suc k')
    with Cons.prems o1 chk have sg: "sg = Continue"
      by (cases sg) simp_all
    with o1 chk have fd: "feed s (o1 # obs) = (Continue, s') # feed s' obs" by simp
    with Cons.prems Suc have "k' < length (feed s' obs)" by simp
    from Cons.IH [OF this] show ?thesis using Suc fd by simp
  qed
qed

lemma check_retained:
  "retained s \<subseteq> {''best_model.pth''} \<Longrightarrow>
   retained (snd (early_stopping_check m v s)) \<subseteq> {''best_model.pth''}"
  by (simp add: early_stopping_check_def retained_def torch_save_def Let_def)

lemma feed_retained:
  "retained s \<subseteq> {''best_model.pth''} \<Longrightarrow>
   \<forall>st \<in> set (s # map snd (feed s obs)). retained st \<subseteq> {''best_model.pth''}"
proof (induction obs arbitrary: s)
  case Nil
  then show ?case by simp
next
  case (Cons o1 obs)
  obtain m v where o1: "o1 = (m, v)" by (cases o1)
  obtain sg s' where chk: "early_stopping_check m v s = (sg, s')"
    by (cases "early_stopping_check m v s")
  from check_retained [OF Cons.prems, of m v] chk
  have r: "retained s' \<subseteq> {''best_model.pth''}" by simp
  show ?case
  proof (cases sg)
    case Continue
    from Cons.IH [OF r] Cons.prems show ?thesis
      using o1 chk Continue by simp
  next
    case Stop
    with Cons.prems r o1 chk show ?thesis by simp
  qed
qed

lemma final_retained: "card (retained (final init_tracker obs)) \<le> 1"
proof -
  have "retained (init_tracker :: 'a tracker) \<subseteq> {''best_model.pth''}"
    by (simp add: retained_def init_tracker_def)
  from feed_retained [OF this, of obs]
  have "retained (final init_tracker obs) \<subseteq> {''best_model.pth''}"
    unfolding final_def by (metis last_in_set list.distinct(1))
  from card_mono [OF _ this] show ?thesis by simp
qed

section \<open>Properties of the dataset preparation\<close>

lemma split_ws_words:
  "\<forall>c \<in> set w. \<not> isspace c \<Longrightarrow>
   \<forall>t \<in> set (split_ws cs w). t \<noteq> [] \<and> (\<forall>c \<in> set t. \<not> isspace c)"
proof (induction cs arbitrary: w)
  case Nil
  then show ?case by simp
next
  case (Cons c cs)
  show ?case
  proof (cases "isspace c")
    case True
    from Cons.IH [of "[]"] have "\<forall>t \<in> set (split_ws cs []). t \<noteq> [] \<and> (\<forall>c \<in> set t. \<not> isspace c)"
      by simp
    with True Cons.prems show ?thesis by simp
  next
    case False
    with Cons.prems have "\<forall>d \<in> set (w @ [c]). \<not> isspace d" by simp
    from Cons.IH [OF this] False show ?thesis by simp
  qed
qed

lemma split_ws_count:
  "length (split_ws cs w) = count_word_starts (w = []) cs + (if w = [] then 0 else 1)"
  by (induction cs arbitrary: w) auto

lemma split_ws_concat:
  "concat (split_ws cs w) = w @ filter (\<lambda>c. \<not> isspace c) cs"
  by (induction cs arbitrary: w) auto

lemma length_str_split: "length (str_split s) = number_of_words s"
  by (simp add: str_split_def number_of_words_def split_ws_count)

lemma shuffle_set: "is_shuffle shuffle \<Longrightarrow> set (shuffle d) = set d"
  unfolding is_shuffle_def by (metis mset_eq_setD)

lemma shuffle_length: "is_shuffle shuffle \<Longrightarrow> length (shuffle d) = length d"
  unfolding is_shuffle_def by (metis mset_eq_length)

lemma train_test_split_set:
  assumes "is_train_test_split tts" and "tts d = Inr (train, test)"
  shows "set train \<subseteq> set d" and "set test \<subseteq> set d"
proof -
  from assms have "mset train + mset test = mset d"
    by (simp add: is_train_test_split_def)
  then have "set_mset (mset train + mset test) = set_mset (mset d)"
    by simp
  then have "set train \<union> set test = set d" by simp
  then show "set train \<subseteq> set d" and "set test \<subseteq> set d" by auto
qed

lemma select_range_Inr:
  "select_range n d = Inr p \<Longrightarrow> set p \<subseteq> set d"
  by (auto simp: select_range_def split: if_splits dest: in_set_takeD)

lemma filtered_pool_words:
  "ex \<in> set (dataset_filter filter_under_300_words d) \<Longrightarrow> number_of_words (text_col ex) < 300"
  by (simp add: dataset_filter_def filter_under_300_words_def length_str_split)

lemma filtered_test_words:
  "ex \<in> set (filtered_test ds_test) \<Longrightarrow>
   number_of_words (text_col ex) < 300 \<and> word_count ex = Some (number_of_words (text_col ex))"
  by (auto simp: filtered_test_def dataset_filter_def dataset_map_def filter_under_300_words_def
      compute_word_count_def length_str_split)

lemma select_shuffled:
  assumes "is_shuffle shuffle"
  shows "3000 \<le> length pool \<Longrightarrow>
           select_range 3000 (shuffle pool) = Inr (take 3000 (shuffle pool)) \<and>
           length (take 3000 (shuffle pool)) = 3000 \<and>
           mset (take 3000 (shuffle pool)) \<subseteq># mset pool"
    and "0 < length pool \<Longrightarrow> length pool < 3000 \<Longrightarrow> select_range 3000 (shuffle pool) = Inl IndexError"
    and "pool = [] \<Longrightarrow> select_range 3000 (shuffle pool) = Inr []"
proof -
  note len = shuffle_length [OF assms, of pool]
  have ne: "shuffle pool = [] \<longleftrightarrow> pool = []"
    using len by (metis length_0_conv)
  have "mset (take 3000 (shuffle pool)) \<subseteq># mset (shuffle pool)"
    by (metis append_take_drop_id mset_append mset_subset_eq_add_left)
  then have sub: "mset (take 3000 (shuffle pool)) \<subseteq># mset pool"
    using assms by (simp add: is_shuffle_def)
  show "3000 \<le> length pool \<Longrightarrow>
           select_range 3000 (shuffle pool) = Inr (take 3000 (shuffle pool)) \<and>
           length (take 3000 (shuffle pool)) = 3000 \<and>
           mset (take 3000 (shuffle pool)) \<subseteq># mset pool"
    using len ne sub by (auto simp: select_range_def)
  show "0 < length pool \<Longrightarrow> length pool < 3000 \<Longrightarrow> select_range 3000 (shuffle pool) = Inl IndexError"
    using len ne by (auto simp: select_range_def)
  show "pool = [] \<Longrightarrow> select_range 3000 (shuffle pool) = Inr []"
    using ne by (simp add: select_range_def)
qed

text \<open>A sample run: reversal as the shuffle, and a split that puts everything into train.\<close>

lemma is_shuffle_rev: "is_shuffle rev"
  by (simp add: is_shuffle_def)

lemma is_tts_all_train: "is_train_test_split (\<lambda>d. Inr (d, []))"
  by (simp add: is_train_test_split_def)

lemma sample_review_words: "str_split (text_col sample_review) = [[104, 105], [104, 111]]"
  by (simp add: sample_review_def str_split_def isspace_def)

lemma filtered_sample:
  "dataset_filter filter_under_300_words (replicate n sample_review) = replicate n sample_review"
  by (simp add: dataset_filter_def filter_under_300_words_def sample_review_words)

lemma small_train_sample:
  "small_train_dataset rev (\<lambda>d. Inr (d, [])) (replicate 3000 sample_review)
     = Inr (replicate 3000 sample_review)"
  by (simp add: small_train_dataset_def filtered_train_val_def filtered_sample select_range_def)

section \<open>Properties of the batch source\<close>

lemma batch_sampler_full:
  "Suc (length batch) = B \<Longrightarrow>
   batch_sampler B dl (x # xs) batch = (batch @ [x]) # batch_sampler B dl xs []"
  by simp

lemma batch_sampler_part:
  "Suc (length batch) \<noteq> B \<Longrightarrow>
   batch_sampler B dl (x # xs) batch = batch_sampler B dl xs (batch @ [x])"
  by simp

lemma batch_sampler_sizes:
  "length batch < B \<Longrightarrow>
   \<forall>b \<in> set (batch_sampler B dl xs batch). 0 < length b \<and> length b \<le> B \<and> (dl \<longrightarrow> length b = B)"
proof (induction xs arbitrary: batch)
  case Nil
  then show ?case by simp
next
  case (Cons x xs)
  show ?case
  proof (cases "Suc (length batch) = B")
    case True
    then have "0 < B" by auto
    from Cons.IH [of "[]"] this have
      "\<forall>b \<in> set (batch_sampler B dl xs []). 0 < length b \<and> length b \<le> B \<and> (dl \<longrightarrow> length b = B)"
      by simp
    with True show ?thesis
      by (simp only: batch_sampler_full [OF True]) auto
  next
    case False
    with Cons.prems have "length (batch @ [x]) < B" by simp
    from Cons.IH [OF this] show ?thesis
      by (simp only: batch_sampler_part [OF False])
  qed
qed

lemma div_step: "0 < (B::nat) \<Longrightarrow> (B + n) div B = Suc (n div B)"
  by simp

lemma batch_sampler_length_drop:
  "length batch < B \<Longrightarrow> length (batch_sampler B True xs batch) = (length batch + length xs) div B"
proof (induction xs arbitrary: batch)
  case Nil
  then show ?case by simp
next
  case (Cons x xs)
  show ?case
  proof (cases "Suc (length batch) = B")
    case True
    then have B: "0 < B" by auto
    have e: "length batch + length (x # xs) = B + length xs" using True by simp
    have "(length batch + length (x # xs)) div B = Suc (length xs div B)"
      by (subst e) (rule div_step [OF B])
    moreover have "length (batch_sampler B True xs []) = length xs div B"
      using Cons.IH [of "[]"] B by simp
    ultimately show ?thesis
      by (simp only: batch_sampler_full [OF True] list.size length_Cons)
  next
    case False
    with Cons.prems have "length (batch @ [x]) < B" by simp
    from Cons.IH [OF this] show ?thesis
      by (simp only: batch_sampler_part [OF False]) simp
  qed
qed

lemma batch_sampler_length_keep:
  "length batch < B \<Longrightarrow>
   length (batch_sampler B False xs batch) = (length batch + length xs + B - 1) div B"
proof (induction xs arbitrary: batch)
  case Nil
  show ?case
  proof (cases batch)
    case Nil
    with Nil.prems show ?thesis by simp
  next
    case (Cons a as)
    with Nil.prems have "(length batch + B - 1) div B = Suc ((length batch - 1) div B)"
      using div_step [of B "length batch - 1"] by (simp add: add.commute)
    with Nil.prems Cons show ?thesis by simp
  qed
next
  case (Cons x xs)
  show ?case
  proof (cases "Suc (length batch) = B")
    case True
    then have B: "0 < B" by auto
    have e: "length batch + length (x # xs) + B - 1 = B + (length xs + B - 1)" using True by simp
    have "(length batch + length (x # xs) + B - 1) div B = Suc ((length xs + B - 1) div B)"
      by (subst e) (rule div_step [OF B])
    moreover have "length (batch_sampler B False xs []) = (length xs + B - 1) div B"
      using Cons.IH [of "[]"] B by simp
    ultimately show ?thesis
      by (simp only: batch_sampler_full [OF True] list.size length_Cons)
  next
    case False
    with Cons.prems have "length (batch @ [x]) < B" by simp
    from Cons.IH [OF this] show ?thesis
      by (simp only: batch_sampler_part [OF False]) simp
  qed
qed

lemma batch_sampler_concat:
  "concat (batch_sampler B False xs batch) = batch @ xs"
  by (induction xs arbitrary: batch) auto

section \<open>Properties of the evaluation metrics\<close>












section \<open>Properties of the inference function\<close>

lemma softmax_eq:
  "softmax (l0, l1) = (exp l0 / (exp l0 + exp l1), exp l1 / (exp l0 + exp l1))"
proof -
  define m where "m = max l0 l1"
  have pos: "0 < exp m" "0 < exp l0 + exp l1" by (simp_all add: add_pos_pos)
  have s: "exp (l0 - m) + exp (l1 - m) = (exp l0 + exp l1) / exp m"
    by (simp add: exp_diff add_divide_distrib)
  have "exp (l0 - m) / (exp (l0 - m) + exp (l1 - m)) = exp l0 / (exp l0 + exp l1)"
    and "exp (l1 - m) / (exp (l0 - m) + exp (l1 - m)) = exp l1 / (exp l0 + exp l1)"
    unfolding s using pos by (simp_all add: exp_diff)
  then show ?thesis by (simp add: softmax_def Let_def m_def)
qed

lemma softmax_sum:
  "fst (softmax logits) + snd (softmax logits) = 1"
  "0 < fst (softmax logits)" "0 < snd (softmax logits)"
proof -
  obtain l0 l1 where l: "logits = (l0, l1)" by (cases logits)
  have pos: "0 < exp l0 + exp l1" by (simp add: add_pos_pos)
  show "fst (softmax logits) + snd (softmax logits) = 1"
    unfolding l softmax_eq using pos by (simp add: add_divide_distrib [symmetric])
  show "0 < fst (softmax logits)" "0 < snd (softmax logits)"
    unfolding l softmax_eq using pos by simp_all
qed

lemma predict_eq:
  "predict model text =
     (if fst (softmax (model text)) < snd (softmax (model text)) then 1 else 0,
      max (fst (softmax (model text))) (snd (softmax (model text))))"
  by (simp add: predict_def argmax_def item_def Let_def max_def)

lemma confidence_bounds:
  "1 / 2 \<le> snd (predict model text)" "snd (predict model text) \<le> 1"
proof -
  let ?p = "softmax (model text)"
  note s = softmax_sum [of "model text"]
  from s show "1 / 2 \<le> snd (predict model text)"
    unfolding predict_eq max_def by (cases "fst ?p \<le> snd ?p") simp_all
  from s show "snd (predict model text) \<le> 1"
    unfolding predict_eq max_def by (cases "fst ?p \<le> snd ?p") simp_all
qed


lemma round_half_even_mono_int:
  "of_int k \<le> x \<Longrightarrow> k \<le> round_half_even x" "x \<le> of_int k \<Longrightarrow> round_half_even x \<le> k"
proof -
  assume "of_int k \<le> x"
  then have "k \<le> \<lfloor>x\<rfloor>" by (simp add: le_floor_iff)
  then show "k \<le> round_half_even x"
    unfolding round_half_even_def Let_def by auto
next
  assume a: "x \<le> of_int k"
  show "round_half_even x \<le> k"
  proof (cases "x = of_int k")
    case True
    then show ?thesis by (simp add: round_half_even_def)
  next
    case False
    with a have "x < of_int k" by simp
    then have "\<lfloor>x\<rfloor> < k" by (simp add: floor_less_iff)
    then show ?thesis unfolding round_half_even_def Let_def by auto
  qed
qed

lemma hundredths_confidence:
  assumes "1 / 2 \<le> c" and "c \<le> 1"
  shows "50 \<le> hundredths c" and "hundredths c \<le> 100"
proof -
  from assms have lo: "of_int 50 \<le> \<bar>c\<bar> * 100" and hi: "\<bar>c\<bar> * 100 \<le> of_int 100"
    by simp_all
  have "50 \<le> round_half_even (\<bar>c\<bar> * 100)" and "round_half_even (\<bar>c\<bar> * 100) \<le> 100"
    using round_half_even_mono_int(1) [OF lo] round_half_even_mono_int(2) [OF hi] by simp_all
  then show "50 \<le> hundredths c" and "hundredths c \<le> 100"
    by (simp_all add: hundredths_def)
qed




section \<open>Properties of the training cell\<close>









text \<open>
  The early-stopping variables at the end of a training that ends without an exception are
  those of the early-stopping block fed with the observed losses.
\<close>

lemma training_loop_feed:
  "training_loop train_step eval_step permutation train val epochs m s = (out, Inr (m_end, s_end)) \<Longrightarrow>
   s_end = final s (observed train_step eval_step permutation train val epochs m)"
proof (induction epochs arbitrary: m s out)
  case Nil
  then show ?case by (simp add: final_def)
next
  case (Cons epoch rest)
  let ?lt = "dataloader_len True 8 (length train)" and ?lv = "dataloader_len False 8 (length val)"
  obtain o1 r where eb: "epoch_body train_step eval_step epoch
             (train_dataloader (permutation epoch) train) ?lt (val_dataloader val) ?lv m = (o1, r)"
    by (cases "epoch_body train_step eval_step epoch
             (train_dataloader (permutation epoch) train) ?lt (val_dataloader val) ?lv m")
  show ?case
  proof (cases r)
    case (Inl err)
    with Cons.prems eb show ?thesis by simp
  next
    case (Inr x)
    obtain m' v where x: "x = (m', v)" by (cases x)
    obtain sg s' where chk: "early_stopping_check m' v s = (sg, s')"
      by (cases "early_stopping_check m' v s")
    show ?thesis
    proof (cases sg)
      case Stop
      with Cons.prems eb Inr x chk show ?thesis by (simp add: final_def)
    next
      case Continue
      obtain out' r' where tl: "training_loop train_step eval_step permutation train val rest m' s' = (out', r')"
        by (cases "training_loop train_step eval_step permutation train val rest m' s'")
      with Cons.prems eb Inr x chk Continue have "r' = Inr (m_end, s_end)" by simp
      with tl Cons.IH [of m' s' out']
      have "s_end = final s' (observed train_step eval_step permutation train val rest m')" by simp
      with eb Inr x chk Continue show ?thesis by (simp add: final_def)
    qed
  qed
qed


text \<open>A sample training: every batch has loss 1, every validation example is classified right.\<close>

lemma epochs_all: "[0..<num_epochs] = [0, 1, 2, 3, 4]"
  by (simp add: num_epochs_def upt_conv_Cons)

lemma sample_training:
  "training (\<lambda>m batch. (Fin 1, Suc m)) (\<lambda>m batch. (Fin 1, [1], [1])) (\<lambda>epoch d. d)
      [1, 2, 3, 4, 5, 6, 7, 8 :: nat] [9] (10 :: nat)
     = ([AvgTrainLoss 1 (Fin 1), AvgValLoss 1 (Fin 1), ValidationMetrics 1 1 1 1,
         AvgTrainLoss 2 (Fin 1), AvgValLoss 2 (Fin 1), ValidationMetrics 1 1 1 1,
         AvgTrainLoss 3 (Fin 1), AvgValLoss 3 (Fin 1), ValidationMetrics 1 1 1 1],
        Inr (13, \<lparr>best_val_loss = Fin 1, counter = 2, checkpoints = [(''best_model.pth'', 11)]\<rparr>))"
  by (simp add: training_def epochs_all epoch_body_def truediv_def dataloader_len_def
      train_dataloader_def val_dataloader_def DataLoader_def accuracy_score_def f1_score_def
      precision_score_def recall_score_def consistent_length_def binary_targets_def tp_sum_def
      predicted_sum_def true_sum_def prf_divide_def early_stopping_check_def init_tracker_def
      torch_save_def patience_def)

section \<open>Claims\<close>

text \<open>
  C1. Starting from \<open>best_val_loss = infinity\<close> and \<open>counter = 0\<close>, on each observed
  \<open>avg_val_loss\<close>: if it is below \<open>best_val_loss\<close> the block stores it as the new best, resets
  the counter, saves the model state and continues; otherwise it increments the counter and
  stops exactly when the counter has reached 2. So a strictly decreasing sequence of losses
  (each below the initial infinity) continues on every call with the best updated to the
  loss of that call, and a sequence that continues up to a state with counter 0 and ends in
  two values that do not improve continues on the first and stops on the second of them.
\<close>

theorem C1_early_stop_controller:
  "best_val_loss (init_tracker :: 'm tracker) = PInf \<and> counter (init_tracker :: 'm tracker) = 0 \<and>
   (\<forall>(m::'m) v s. float_lt v (best_val_loss s) \<longrightarrow>
      early_stopping_check m v s =
        (Continue, s\<lparr>best_val_loss := v, counter := 0,
                     checkpoints := (''best_model.pth'', m) # checkpoints s\<rparr>)) \<and>
   (\<forall>(m::'m) v s. \<not> float_lt v (best_val_loss s) \<longrightarrow>
      early_stopping_check m v s =
        (if counter s + 1 \<ge> 2 then Stop else Continue, s\<lparr>counter := counter s + 1\<rparr>)) \<and>
   (\<forall>obs :: ('m \<times> pyfloat) list.
      strictly_decreasing (map snd obs) \<and> (\<forall>v \<in> set (map snd obs). float_lt v PInf) \<longrightarrow>
      map fst (feed init_tracker obs) = replicate (length obs) Continue \<and>
      map (best_val_loss \<circ> snd) (feed init_tracker obs) = map snd obs) \<and>
   (\<forall>(pre :: ('m \<times> pyfloat) list) ma a mb b.
      map fst (feed init_tracker pre) = replicate (length pre) Continue \<and>
      counter (final init_tracker pre) = 0 \<and>
      \<not> float_lt a (best_val_loss (final init_tracker pre)) \<and>
      \<not> float_lt b (best_val_loss (final init_tracker pre)) \<longrightarrow>
      feed init_tracker (pre @ [(ma, a), (mb, b)]) =
        feed init_tracker pre @
          [(Continue, (final init_tracker pre)\<lparr>counter := 1\<rparr>),
           (Stop, (final init_tracker pre)\<lparr>counter := 2\<rparr>)])"
proof (intro conjI allI impI)
  show "best_val_loss (init_tracker :: 'm tracker) = PInf"
    by (simp add: init_tracker_def)
  show "counter (init_tracker :: 'm tracker) = 0"
    by (simp add: init_tracker_def)
next
  fix m :: 'm and v and s :: "'m tracker"
  assume "float_lt v (best_val_loss s)"
  then show "early_stopping_check m v s =
        (Continue, s\<lparr>best_val_loss := v, counter := 0,
                     checkpoints := (''best_model.pth'', m) # checkpoints s\<rparr>)"
    by (rule check_improving)
next
  fix m :: 'm and v and s :: "'m tracker"
  assume "\<not> float_lt v (best_val_loss s)"
  then show "early_stopping_check m v s =
        (if counter s + 1 \<ge> 2 then Stop else Continue, s\<lparr>counter := counter s + 1\<rparr>)"
    by (rule check_not_improving)
next
  fix obs :: "('m \<times> pyfloat) list"
  assume h: "strictly_decreasing (map snd obs) \<and> (\<forall>v \<in> set (map snd obs). float_lt v PInf)"
  then have "sorted_wrt (\<lambda>a b. float_lt b a)
               (best_val_loss (init_tracker :: 'm tracker) # map snd obs)"
    by (simp add: strictly_decreasing_def init_tracker_def)
  from feed_decreasing [OF this]
  show "map fst (feed init_tracker obs) = replicate (length obs) Continue"
    and "map (best_val_loss \<circ> snd) (feed init_tracker obs) = map snd obs"
    by simp_all
next
  fix pre :: "('m \<times> pyfloat) list" and ma a mb b
  assume h: "map fst (feed init_tracker pre) = replicate (length pre) Continue \<and>
      counter (final init_tracker pre) = 0 \<and>
      \<not> float_lt a (best_val_loss (final init_tracker pre)) \<and>
      \<not> float_lt b (best_val_loss (final init_tracker pre))"
  then have app: "feed init_tracker (pre @ [(ma, a), (mb, b)]) =
      feed init_tracker pre @ feed (final init_tracker pre) [(ma, a), (mb, b)]"
    by (simp add: feed_append)
  from h have "feed (final init_tracker pre) [(ma, a), (mb, b)] =
      [(Continue, (final init_tracker pre)\<lparr>counter := 1\<rparr>),
       (Stop, (final init_tracker pre)\<lparr>counter := 2\<rparr>)]"
    by (intro feed_two_not_improving) simp_all
  with app show "feed init_tracker (pre @ [(ma, a), (mb, b)]) =
        feed init_tracker pre @
          [(Continue, (final init_tracker pre)\<lparr>counter := 1\<rparr>),
           (Stop, (final init_tracker pre)\<lparr>counter := 2\<rparr>)]"
    by simp
qed

theorem C1_early_stop_controller_witness:
  "strictly_decreasing (map snd [(10::nat, Fin 0.9), (20, Fin 0.7)]) \<and>
   float_lt (Fin 0.9) PInf \<and> float_lt (Fin 0.7) PInf \<and>
   map fst (feed init_tracker [(10::nat, Fin 0.9), (20, Fin 0.7)]) = [Continue, Continue] \<and>
   map (best_val_loss \<circ> snd) (feed init_tracker [(10::nat, Fin 0.9), (20, Fin 0.7)]) = [Fin 0.9, Fin 0.7] \<and>
   counter (final init_tracker [(10::nat, Fin 0.9), (20, Fin 0.7)]) = 0 \<and>
   \<not> float_lt (Fin 0.7) (best_val_loss (final init_tracker [(10::nat, Fin 0.9), (20, Fin 0.7)])) \<and>
   \<not> float_lt (Fin 0.8) (best_val_loss (final init_tracker [(10::nat, Fin 0.9), (20, Fin 0.7)])) \<and>
   map fst (feed init_tracker ([(10::nat, Fin 0.9), (20, Fin 0.7)] @ [(30, Fin 0.7), (40, Fin 0.8)]))
     = [Continue, Continue, Continue, Stop]"
proof -
  let ?pre = "[(10::nat, Fin 0.9), (20, Fin 0.7)]"
  note c1 = C1_early_stop_controller [where ?'m = nat]
  have dec: "strictly_decreasing (map snd ?pre) \<and> (\<forall>v \<in> set (map snd ?pre). float_lt v PInf)"
    by (simp add: strictly_decreasing_def)
  from c1 have d: "strictly_decreasing (map snd ?pre) \<and> (\<forall>v \<in> set (map snd ?pre). float_lt v PInf) \<longrightarrow>
      map fst (feed init_tracker ?pre) = replicate (length ?pre) Continue \<and>
      map (best_val_loss \<circ> snd) (feed init_tracker ?pre) = map snd ?pre"
    by blast
  with dec have run: "map fst (feed init_tracker ?pre) = replicate (length ?pre) Continue"
    and best: "map (best_val_loss \<circ> snd) (feed init_tracker ?pre) = map snd ?pre"
    by blast+
  have fin: "final init_tracker ?pre = \<lparr>best_val_loss = Fin 0.7, counter = 0, checkpoints = [(''best_model.pth'', 20), (''best_model.pth'', 10)]\<rparr>"
    by (simp add: final_def init_tracker_def early_stopping_check_def torch_save_def)
  have hyp: "counter (final init_tracker ?pre) = 0 \<and>
      \<not> float_lt (Fin 0.7) (best_val_loss (final init_tracker ?pre)) \<and>
      \<not> float_lt (Fin 0.8) (best_val_loss (final init_tracker ?pre))"
    by (simp add: fin)
  from c1 have "map fst (feed init_tracker ?pre) = replicate (length ?pre) Continue \<and>
      counter (final init_tracker ?pre) = 0 \<and>
      \<not> float_lt (Fin 0.7) (best_val_loss (final init_tracker ?pre)) \<and>
      \<not> float_lt (Fin 0.8) (best_val_loss (final init_tracker ?pre)) \<longrightarrow>
      feed init_tracker (?pre @ [(30, Fin 0.7), (40, Fin 0.8)]) =
        feed init_tracker ?pre @
          [(Continue, (final init_tracker ?pre)\<lparr>counter := 1\<rparr>),
           (Stop, (final init_tracker ?pre)\<lparr>counter := 2\<rparr>)]"
    by blast
  with run hyp have "feed init_tracker (?pre @ [(30, Fin 0.7), (40, Fin 0.8)]) =
        feed init_tracker ?pre @
          [(Continue, (final init_tracker ?pre)\<lparr>counter := 1\<rparr>),
           (Stop, (final init_tracker ?pre)\<lparr>counter := 2\<rparr>)]"
    by blast
  then have "map fst (feed init_tracker (?pre @ [(30, Fin 0.7), (40, Fin 0.8)])) =
     map fst (feed init_tracker ?pre) @ [Continue, Stop]"
    by simp
  with run have stop: "map fst (feed init_tracker (?pre @ [(30, Fin 0.7), (40, Fin 0.8)])) = [Continue, Continue, Continue, Stop]"
    by simp
  from dec run best hyp stop show ?thesis by simp
qed

text \<open>
  C2. At every point of training at most one checkpoint file exists, and for finite losses the
  checkpoint is written in an epoch exactly when that epoch's \<open>avg_val_loss\<close> is strictly below
  every loss observed in the earlier epochs (it then holds that epoch's model state); an epoch
  whose loss ties the current best writes nothing and increments the counter. The
  early-stopping variables at the end of the training cell are those of the block fed with
  the losses of the epochs, so at most one checkpoint file exists after training too.
\<close>

theorem C2_single_best_checkpoint:
  assumes "\<forall>v \<in> set (map snd obs). is_finite v" and "k < length (feed init_tracker obs)"
  shows "card (retained (init_tracker :: 'm tracker)) \<le> 1 \<and>
     card (retained (snd (feed init_tracker obs ! k))) \<le> 1 \<and>
     ((n_saves (snd (feed init_tracker obs ! k))
         = n_saves ((init_tracker # map snd (feed init_tracker obs)) ! k) + 1)
       = (\<forall>h \<in> set (take k (map snd obs)). float_lt (snd (obs ! k)) h)) \<and>
     ((n_saves (snd (feed init_tracker obs ! k))
         \<noteq> n_saves ((init_tracker # map snd (feed init_tracker obs)) ! k) + 1)
       = (checkpoints (snd (feed init_tracker obs ! k))
            = checkpoints ((init_tracker # map snd (feed init_tracker obs)) ! k))) \<and>
     (n_saves (snd (feed init_tracker obs ! k))
         = n_saves ((init_tracker # map snd (feed init_tracker obs)) ! k) + 1
       \<longrightarrow> torch_load ''best_model.pth'' (checkpoints (snd (feed init_tracker obs ! k)))
             = Some (fst (obs ! k))) \<and>
     (snd (obs ! k) = best_val_loss ((init_tracker # map snd (feed init_tracker obs)) ! k)
       \<longrightarrow> checkpoints (snd (feed init_tracker obs ! k))
             = checkpoints ((init_tracker # map snd (feed init_tracker obs)) ! k) \<and>
           counter (snd (feed init_tracker obs ! k))
             = counter ((init_tracker # map snd (feed init_tracker obs)) ! k) + 1) \<and>
     (\<forall>train_step eval_step permutation (train :: 'x list) val m0 out m_end s_end.
        training train_step eval_step permutation train val m0 = (out, Inr (m_end, s_end :: 'm tracker))
        \<longrightarrow> s_end = final init_tracker
                      (observed train_step eval_step permutation train val [0..<num_epochs] m0) \<and>
            card (retained s_end) \<le> 1)"
proof -
  let ?before = "(init_tracker # map snd (feed init_tracker obs)) ! k"
  let ?after = "snd (feed init_tracker obs ! k)"
  note fs = feed_saves [OF tracker_inv_init assms, simplified]
  have sub: "retained ?after \<subseteq> {''best_model.pth''}"
    using fs by (simp add: retained_def)
  have c0: "card (retained (init_tracker :: 'm tracker)) \<le> 1"
    by (simp add: retained_def init_tracker_def)
  have c1: "card (retained ?after) \<le> 1"
    using card_mono [OF _ sub] by simp
  have neq: "(n_saves ?after = n_saves ?before + 1) = (checkpoints ?after \<noteq> checkpoints ?before)"
    using fs by (auto simp: n_saves_def)
  have iff: "(n_saves ?after = n_saves ?before + 1)
       = (\<forall>h \<in> set (take k (map snd obs)). float_lt (snd (obs ! k)) h)"
    using fs neq by simp
  have ld: "n_saves ?after = n_saves ?before + 1
       \<longrightarrow> torch_load ''best_model.pth'' (checkpoints ?after) = Some (fst (obs ! k))"
    using fs neq by (auto simp: torch_load_def)
  have tie: "snd (obs ! k) = best_val_loss ?before
       \<longrightarrow> checkpoints ?after = checkpoints ?before \<and> counter ?after = counter ?before + 1"
  proof
    assume t: "snd (obs ! k) = best_val_loss ?before"
    have "\<not> float_lt (best_val_loss ?before) (best_val_loss ?before)"
      by (cases "best_val_loss ?before") simp_all
    with t have "\<not> float_lt (snd (obs ! k)) (best_val_loss ?before)" by simp
    from check_not_improving [OF this, of "fst (obs ! k)"] feed_nth [OF assms(2)]
    show "checkpoints ?after = checkpoints ?before \<and> counter ?after = counter ?before + 1"
      by simp
  qed
  have tr: "\<forall>train_step eval_step permutation (train :: 'x list) val m0 out m_end s_end.
        training train_step eval_step permutation train val m0 = (out, Inr (m_end, s_end :: 'm tracker))
        \<longrightarrow> s_end = final init_tracker
                      (observed train_step eval_step permutation train val [0..<num_epochs] m0) \<and>
            card (retained s_end) \<le> 1"
  proof (intro allI impI)
    fix train_step eval_step permutation and train :: "'x list" and val m0 out m_end
      and s_end :: "'m tracker"
    assume "training train_step eval_step permutation train val m0 = (out, Inr (m_end, s_end))"
    then have e: "s_end = final init_tracker
                      (observed train_step eval_step permutation train val [0..<num_epochs] m0)"
      unfolding training_def by (rule training_loop_feed)
    with final_retained show "s_end = final init_tracker
                      (observed train_step eval_step permutation train val [0..<num_epochs] m0) \<and>
            card (retained s_end) \<le> 1"
      by simp
  qed
  from c0 c1 iff neq ld tie tr show ?thesis by blast
qed

theorem C2_single_best_checkpoint_witness:
  "is_finite (Fin 0.9) \<and> is_finite (Fin 0.7) \<and>
   2 < length (feed init_tracker [(10::nat, Fin 0.9), (20, Fin 0.7), (30, Fin 0.7)]) \<and>
   card (retained (snd (feed init_tracker [(10::nat, Fin 0.9), (20, Fin 0.7), (30, Fin 0.7)] ! 2))) \<le> 1 \<and>
   \<not> float_lt (Fin 0.7) (Fin 0.7) \<and>
   n_saves (snd (feed init_tracker [(10::nat, Fin 0.9), (20, Fin 0.7), (30, Fin 0.7)] ! 2)) \<noteq>
     n_saves ((init_tracker # map snd (feed init_tracker [(10::nat, Fin 0.9), (20, Fin 0.7), (30, Fin 0.7)])) ! 2) + 1 \<and>
   counter (snd (feed init_tracker [(10::nat, Fin 0.9), (20, Fin 0.7), (30, Fin 0.7)] ! 2)) = 1 \<and>
   torch_load ''best_model.pth''
     (checkpoints (snd (feed init_tracker [(10::nat, Fin 0.9), (20, Fin 0.7), (30, Fin 0.7)] ! 2))) = Some 20 \<and>
   snd (training (\<lambda>m batch. (Fin 1, Suc m)) (\<lambda>m batch. (Fin 1, [1], [1])) (\<lambda>epoch d. d)
      [1, 2, 3, 4, 5, 6, 7, 8 :: nat] [9] (10 :: nat))
     = Inr (13, \<lparr>best_val_loss = Fin 1, counter = 2, checkpoints = [(''best_model.pth'', 11)]\<rparr>) \<and>
   final init_tracker (observed (\<lambda>m batch. (Fin 1, Suc m)) (\<lambda>m batch. (Fin 1, [1], [1]))
      (\<lambda>epoch d. d) [1, 2, 3, 4, 5, 6, 7, 8 :: nat] [9] [0..<num_epochs] (10 :: nat))
     = \<lparr>best_val_loss = Fin 1, counter = 2, checkpoints = [(''best_model.pth'', 11)]\<rparr> \<and>
   card (retained \<lparr>best_val_loss = Fin 1, counter = 2,
                   checkpoints = [(''best_model.pth'', 11 :: nat)]\<rparr>) \<le> 1"
proof -
  let ?obs = "[(10::nat, Fin 0.9), (20, Fin 0.7), (30, Fin 0.7)]"
  have fd: "feed init_tracker ?obs =
    [(Continue, \<lparr>best_val_loss = Fin 0.9, counter = 0, checkpoints = [(''best_model.pth'', 10)]\<rparr>),
     (Continue, \<lparr>best_val_loss = Fin 0.7, counter = 0,
        checkpoints = [(''best_model.pth'', 20), (''best_model.pth'', 10)]\<rparr>),
     (Continue, \<lparr>best_val_loss = Fin 0.7, counter = 1,
        checkpoints = [(''best_model.pth'', 20), (''best_model.pth'', 10)]\<rparr>)]"
    by (simp add: init_tracker_def early_stopping_check_def torch_save_def patience_def)
  have h1: "\<forall>v \<in> set (map snd ?obs). is_finite v" by simp
  have h2: "2 < length (feed init_tracker ?obs)" unfolding fd by simp
  note c2 = C2_single_best_checkpoint [OF h1 h2, where ?'x = nat]
  note tr = c2 [THEN conjunct2, THEN conjunct2, THEN conjunct2, THEN conjunct2, THEN conjunct2,
      THEN conjunct2]
  note trs = tr [rule_format, OF sample_training]
  from trs [THEN conjunct1]
  have e: "final init_tracker (observed (\<lambda>m batch. (Fin 1, Suc m)) (\<lambda>m batch. (Fin 1, [1], [1]))
      (\<lambda>epoch d. d) [1, 2, 3, 4, 5, 6, 7, 8 :: nat] [9] [0..<num_epochs] (10 :: nat))
     = \<lparr>best_val_loss = Fin 1, counter = 2, checkpoints = [(''best_model.pth'', 11)]\<rparr>"
    by (rule sym)
  from trs [THEN conjunct2]
  have c: "card (retained \<lparr>best_val_loss = Fin 1, counter = 2,
                   checkpoints = [(''best_model.pth'', 11 :: nat)]\<rparr>) \<le> 1" .
  have t: "snd (training (\<lambda>m batch. (Fin 1, Suc m)) (\<lambda>m batch. (Fin 1, [1], [1])) (\<lambda>epoch d. d)
      [1, 2, 3, 4, 5, 6, 7, 8 :: nat] [9] (10 :: nat))
     = Inr (13, \<lparr>best_val_loss = Fin 1, counter = 2, checkpoints = [(''best_model.pth'', 11)]\<rparr>)"
    by (simp only: sample_training snd_conv)
  have rest: "is_finite (Fin 0.9) \<and> is_finite (Fin 0.7) \<and>
   2 < length (feed init_tracker ?obs) \<and>
   card (retained (snd (feed init_tracker ?obs ! 2))) \<le> 1 \<and>
   \<not> float_lt (Fin 0.7) (Fin 0.7) \<and>
   n_saves (snd (feed init_tracker ?obs ! 2)) \<noteq>
     n_saves ((init_tracker # map snd (feed init_tracker ?obs)) ! 2) + 1 \<and>
   counter (snd (feed init_tracker ?obs ! 2)) = 1 \<and>
   torch_load ''best_model.pth'' (checkpoints (snd (feed init_tracker ?obs ! 2))) = Some 20"
    using c2 h1 h2 unfolding fd by (auto simp: torch_load_def n_saves_def)
  from rest t e c show ?thesis by (simp only: simp_thms)
qed






text \<open>
  C5. With batch size 8, the training loader (\<open>drop_last=True\<close>) yields only batches of
  exactly 8 examples, and the validation loader (\<open>drop_last=False\<close>, no shuffling) yields
  batches whose concatenation is the partition itself, so every example occurs exactly once;
  the same holds for every positive batch size.
\<close>

theorem C5_batch_source:
  "(\<forall>b \<in> set (train_dataloader permutation dataset). length b = 8) \<and>
   length (train_dataloader permutation dataset) = length (permutation dataset) div 8 \<and>
   concat (val_dataloader dataset) = dataset \<and>
   (\<forall>b \<in> set (val_dataloader dataset). 0 < length b \<and> length b \<le> 8) \<and>
   length (val_dataloader dataset) = (length dataset + 7) div 8 \<and>
   concat (test_dataloader dataset) = dataset \<and>
   (\<forall>B order. 0 < B \<longrightarrow>
      (\<forall>b \<in> set (DataLoader dataset order B True). length b = B) \<and>
      concat (DataLoader dataset order B False) = order dataset)"
proof (intro conjI allI impI)
  show "\<forall>b \<in> set (train_dataloader permutation dataset). length b = 8"
    using batch_sampler_sizes [of "[]" 8 True "permutation dataset"]
    by (simp add: train_dataloader_def DataLoader_def)
  show "length (train_dataloader permutation dataset) = length (permutation dataset) div 8"
    using batch_sampler_length_drop [of "[]" 8 "permutation dataset"]
    by (simp add: train_dataloader_def DataLoader_def)
  show "concat (val_dataloader dataset) = dataset"
    by (simp add: val_dataloader_def DataLoader_def batch_sampler_concat)
  show "\<forall>b \<in> set (val_dataloader dataset). 0 < length b \<and> length b \<le> 8"
    using batch_sampler_sizes [of "[]" 8 False dataset]
    by (simp add: val_dataloader_def DataLoader_def)
  show "length (val_dataloader dataset) = (length dataset + 7) div 8"
    using batch_sampler_length_keep [of "[]" 8 dataset]
    by (simp add: val_dataloader_def DataLoader_def)
  show "concat (test_dataloader dataset) = dataset"
    by (simp add: test_dataloader_def DataLoader_def batch_sampler_concat)
next
  fix B :: nat and order :: "'a list \<Rightarrow> 'a list"
  assume B: "0 < B"
  show "\<forall>b \<in> set (DataLoader dataset order B True). length b = B"
    using batch_sampler_sizes [of "[]" B True "order dataset"] B
    by (simp add: DataLoader_def)
  show "concat (DataLoader dataset order B False) = order dataset"
    by (simp add: DataLoader_def batch_sampler_concat)
qed

theorem C5_batch_source_witness:
  "train_dataloader rev [1, 2, 3, 4, 5, 6, 7, 8, 9, 10 :: nat] = [[10, 9, 8, 7, 6, 5, 4, 3]] \<and>
   length [10, 9, 8, 7, 6, 5, 4, 3 :: nat] = 8 \<and>
   val_dataloader [1, 2, 3, 4, 5, 6, 7, 8, 9, 10 :: nat] = [[1, 2, 3, 4, 5, 6, 7, 8], [9, 10]] \<and>
   concat [[1, 2, 3, 4, 5, 6, 7, 8], [9, 10 :: nat]] = [1, 2, 3, 4, 5, 6, 7, 8, 9, 10] \<and>
   (0::nat) < 3 \<and>
   concat (DataLoader [1, 2, 3, 4, 5, 6, 7, 8, 9, 10 :: nat] rev 3 False) = [10, 9, 8, 7, 6, 5, 4, 3, 2, 1]"
proof -
  let ?d = "[1, 2, 3, 4, 5, 6, 7, 8, 9, 10 :: nat]"
  have t: "train_dataloader rev ?d = [[10, 9, 8, 7, 6, 5, 4, 3]]"
    by (simp add: train_dataloader_def DataLoader_def)
  have v: "val_dataloader ?d = [[1, 2, 3, 4, 5, 6, 7, 8], [9, 10]]"
    by (simp add: val_dataloader_def DataLoader_def)
  note c5 = C5_batch_source [of rev ?d]
  from c5 have "\<forall>b \<in> set (train_dataloader rev ?d). length b = 8" by blast
  with t have l: "length [10, 9, 8, 7, 6, 5, 4, 3 :: nat] = 8" by simp
  from c5 have "concat (val_dataloader ?d) = ?d" by blast
  with v have c: "concat [[1, 2, 3, 4, 5, 6, 7, 8], [9, 10 :: nat]] = ?d" by simp
  from c5 have "(0::nat) < 3 \<longrightarrow> concat (DataLoader ?d rev 3 False) = rev ?d" by blast
  then have g: "concat (DataLoader ?d rev 3 False) = [10, 9, 8, 7, 6, 5, 4, 3, 2, 1]" by simp
  from t l v c g show ?thesis by simp
qed

text \<open>
  C6. Every example of every produced partition (train, validation, test) has fewer than 300
  whitespace-separated words, for any shuffle and any train/validation split; the filter
  keeps an example exactly when its text has fewer than 300 such words. The words are what
  \<open>text.split()\<close> returns: non-empty, free of whitespace, together all the non-whitespace
  characters of the text, and as many as there are word starts.
\<close>

theorem C6_filter_invariant:
  assumes "is_shuffle shuffle" and "is_train_test_split tts"
  shows "(\<forall>p. small_train_dataset shuffle tts ds_train = Inr p \<longrightarrow>
            (\<forall>ex \<in> set p. number_of_words (text_col ex) < 300)) \<and>
         (\<forall>p. small_val_dataset shuffle tts ds_train = Inr p \<longrightarrow>
            (\<forall>ex \<in> set p. number_of_words (text_col ex) < 300)) \<and>
         (\<forall>p. small_test_dataset shuffle ds_test = Inr p \<longrightarrow>
            (\<forall>ex \<in> set p. number_of_words (text_col ex) < 300)) \<and>
         (\<forall>ex. filter_under_300_words ex \<longleftrightarrow> number_of_words (text_col ex) < 300) \<and>
         (\<forall>d. set (dataset_filter filter_under_300_words d)
                = {ex \<in> set d. number_of_words (text_col ex) < 300}) \<and>
         (\<forall>s. length (str_split s) = number_of_words s \<and>
              concat (str_split s) = filter (\<lambda>c. \<not> isspace c) s \<and>
              (\<forall>t \<in> set (str_split s). t \<noteq> [] \<and> (\<forall>c \<in> set t. \<not> isspace c)))"
proof (intro conjI allI impI ballI)
  fix p ex
  assume r: "small_train_dataset shuffle tts ds_train = Inr p" and ex: "ex \<in> set p"
  then obtain ft fv where tts: "tts (dataset_filter filter_under_300_words ds_train) = Inr (ft, fv)"
    and sel: "select_range 3000 (shuffle ft) = Inr p"
    by (auto simp: small_train_dataset_def filtered_train_val_def split: sum.splits prod.splits)
  from sel ex have "ex \<in> set (shuffle ft)" using select_range_Inr by blast
  then have "ex \<in> set ft" using shuffle_set [OF assms(1)] by simp
  then have "ex \<in> set (dataset_filter filter_under_300_words ds_train)"
    using train_test_split_set(1) [OF assms(2) tts] by blast
  then show "number_of_words (text_col ex) < 300" by (rule filtered_pool_words)
next
  fix p ex
  assume r: "small_val_dataset shuffle tts ds_train = Inr p" and ex: "ex \<in> set p"
  then obtain ft fv where tts: "tts (dataset_filter filter_under_300_words ds_train) = Inr (ft, fv)"
    and sel: "select_range 3000 (shuffle fv) = Inr p"
    by (auto simp: small_val_dataset_def filtered_train_val_def split: sum.splits prod.splits)
  from sel ex have "ex \<in> set (shuffle fv)" using select_range_Inr by blast
  then have "ex \<in> set fv" using shuffle_set [OF assms(1)] by simp
  then have "ex \<in> set (dataset_filter filter_under_300_words ds_train)"
    using train_test_split_set(2) [OF assms(2) tts] by blast
  then show "number_of_words (text_col ex) < 300" by (rule filtered_pool_words)
next
  fix p ex
  assume "small_test_dataset shuffle ds_test = Inr p" and ex: "ex \<in> set p"
  then have "set p \<subseteq> set (shuffle (filtered_test ds_test))"
    using select_range_Inr by (auto simp: small_test_dataset_def)
  with ex have "ex \<in> set (filtered_test ds_test)"
    using shuffle_set [OF assms(1)] by auto
  then show "number_of_words (text_col ex) < 300"
    using filtered_test_words by simp
next
  fix ex
  show "filter_under_300_words ex \<longleftrightarrow> number_of_words (text_col ex) < 300"
    by (simp add: filter_under_300_words_def length_str_split)
next
  fix d
  show "set (dataset_filter filter_under_300_words d)
          = {ex \<in> set d. number_of_words (text_col ex) < 300}"
    by (auto simp: dataset_filter_def filter_under_300_words_def length_str_split)
next
  fix s
  show "length (str_split s) = number_of_words s"
    by (rule length_str_split)
  show "concat (str_split s) = filter (\<lambda>c. \<not> isspace c) s"
    by (simp add: str_split_def split_ws_concat)
next
  fix s t
  assume "t \<in> set (str_split s)"
  then show "t \<noteq> []"
    using split_ws_words [of "[]" s] by (auto simp: str_split_def)
next
  fix s t c
  assume "t \<in> set (str_split s)" and "c \<in> set t"
  then show "\<not> isspace c"
    using split_ws_words [of "[]" s] by (auto simp: str_split_def)
qed

theorem C6_filter_invariant_witness:
  "is_shuffle rev \<and> is_train_test_split (\<lambda>d. Inr (d, [])) \<and>
   small_train_dataset rev (\<lambda>d. Inr (d, [])) (replicate 3000 sample_review)
     = Inr (replicate 3000 sample_review) \<and>
   sample_review \<in> set (replicate 3000 sample_review) \<and>
   number_of_words (text_col sample_review) < 300 \<and>
   length (str_split (text_col sample_review)) = 2"
proof -
  have m: "sample_review \<in> set (replicate 3000 sample_review)" by simp
  note c6 = C6_filter_invariant [OF is_shuffle_rev is_tts_all_train, of "replicate 3000 sample_review"]
  from c6 have a: "\<forall>p. small_train_dataset rev (\<lambda>d. Inr (d, [])) (replicate 3000 sample_review) = Inr p \<longrightarrow>
            (\<forall>ex \<in> set p. number_of_words (text_col ex) < 300)"
    by (rule conjunct1)
  from a [rule_format, OF small_train_sample m]
  have "number_of_words (text_col sample_review) < 300" .
  with is_shuffle_rev is_tts_all_train small_train_sample m show ?thesis
    by (simp add: sample_review_words)
qed

text \<open>
  C7, as stated: partition construction returns exactly 3000 examples or fails. It does not
  for an empty filtered pool: \<open>select\<close> returns the empty dataset as it is, without an error.
\<close>

theorem C7_empty_pool_counterexample:
  "length (filtered_test []) < 3000 \<and>
   small_test_dataset rev [] = Inr [] \<and>
   small_train_dataset rev (\<lambda>d. Inr (d, [])) [] = Inr [] \<and>
   small_val_dataset rev (\<lambda>d. Inr (d, [])) [] = Inr []"
  by (simp add: small_test_dataset_def small_train_dataset_def small_val_dataset_def
      filtered_train_val_def filtered_test_def dataset_filter_def dataset_map_def select_range_def)

text \<open>
  C7, amended. Each partition is built by shuffling its filtered pool and selecting the first
  3000 examples: with at least 3000 examples in the pool the result is exactly the first 3000
  of the shuffled pool, with fewer but at least one the selection raises \<open>IndexError\<close>, and
  an empty pool gives an empty partition without an error. An error of the train/validation
  split is the error of both partitions.
\<close>

theorem C7_subsample_size:
  assumes "is_shuffle shuffle"
  shows "(\<forall>filtered_train filtered_val.
            filtered_train_val tts ds_train = Inr (filtered_train, filtered_val) \<longrightarrow>
            (3000 \<le> length filtered_train \<longrightarrow>
               small_train_dataset shuffle tts ds_train = Inr (take 3000 (shuffle filtered_train)) \<and>
               length (take 3000 (shuffle filtered_train)) = 3000 \<and>
               mset (take 3000 (shuffle filtered_train)) \<subseteq># mset filtered_train) \<and>
            (0 < length filtered_train \<and> length filtered_train < 3000 \<longrightarrow>
               small_train_dataset shuffle tts ds_train = Inl IndexError) \<and>
            (filtered_train = [] \<longrightarrow> small_train_dataset shuffle tts ds_train = Inr []) \<and>
            (3000 \<le> length filtered_val \<longrightarrow>
               small_val_dataset shuffle tts ds_train = Inr (take 3000 (shuffle filtered_val)) \<and>
               length (take 3000 (shuffle filtered_val)) = 3000 \<and>
               mset (take 3000 (shuffle filtered_val)) \<subseteq># mset filtered_val) \<and>
            (0 < length filtered_val \<and> length filtered_val < 3000 \<longrightarrow>
               small_val_dataset shuffle tts ds_train = Inl IndexError) \<and>
            (filtered_val = [] \<longrightarrow> small_val_dataset shuffle tts ds_train = Inr [])) \<and>
         (\<forall>e. filtered_train_val tts ds_train = Inl e \<longrightarrow>
            small_train_dataset shuffle tts ds_train = Inl e \<and>
            small_val_dataset shuffle tts ds_train = Inl e) \<and>
         (3000 \<le> length (filtered_test ds_test) \<longrightarrow>
            small_test_dataset shuffle ds_test = Inr (take 3000 (shuffle (filtered_test ds_test))) \<and>
            length (take 3000 (shuffle (filtered_test ds_test))) = 3000 \<and>
            mset (take 3000 (shuffle (filtered_test ds_test))) \<subseteq># mset (filtered_test ds_test)) \<and>
         (0 < length (filtered_test ds_test) \<and> length (filtered_test ds_test) < 3000 \<longrightarrow>
            small_test_dataset shuffle ds_test = Inl IndexError) \<and>
         (filtered_test ds_test = [] \<longrightarrow> small_test_dataset shuffle ds_test = Inr [])"
  using select_shuffled [OF assms]
  by (simp add: small_train_dataset_def small_val_dataset_def small_test_dataset_def)

theorem C7_subsample_size_witness:
  "is_shuffle rev \<and>
   filtered_train_val (\<lambda>d. Inr (d, [])) (replicate 3000 sample_review)
     = Inr (replicate 3000 sample_review, []) \<and>
   3000 \<le> length (replicate 3000 sample_review) \<and>
   small_train_dataset rev (\<lambda>d. Inr (d, [])) (replicate 3000 sample_review)
     = Inr (replicate 3000 sample_review) \<and>
   length (replicate 3000 sample_review) = 3000 \<and>
   small_val_dataset rev (\<lambda>d. Inr (d, [])) (replicate 3000 sample_review) = Inr [] \<and>
   0 < length (filtered_test [sample_review]) \<and> length (filtered_test [sample_review]) < 3000 \<and>
   small_test_dataset rev [sample_review] = Inl IndexError"
proof -
  have ftv: "filtered_train_val (\<lambda>d. Inr (d, [])) (replicate 3000 sample_review)
     = Inr (replicate 3000 sample_review, [])"
    by (simp add: filtered_train_val_def filtered_sample)
  have fte: "filtered_test [sample_review] = [compute_word_count sample_review]"
    by (simp add: filtered_test_def dataset_filter_def dataset_map_def filter_under_300_words_def
        compute_word_count_def sample_review_words)
  note c7 = C7_subsample_size [OF is_shuffle_rev, of "\<lambda>d. Inr (d, [])"
      "replicate 3000 sample_review" "[sample_review]"]
  from c7 have tv: "\<forall>filtered_train filtered_val.
            filtered_train_val (\<lambda>d. Inr (d, [])) (replicate 3000 sample_review)
              = Inr (filtered_train, filtered_val) \<longrightarrow>
            (3000 \<le> length filtered_train \<longrightarrow>
               small_train_dataset rev (\<lambda>d. Inr (d, [])) (replicate 3000 sample_review)
                 = Inr (take 3000 (rev filtered_train))) \<and>
            (filtered_val = [] \<longrightarrow>
               small_val_dataset rev (\<lambda>d. Inr (d, [])) (replicate 3000 sample_review) = Inr [])"
    by simp
  from tv [rule_format, OF ftv]
  have a: "small_train_dataset rev (\<lambda>d. Inr (d, [])) (replicate 3000 sample_review)
             = Inr (replicate 3000 sample_review)"
    and b: "small_val_dataset rev (\<lambda>d. Inr (d, [])) (replicate 3000 sample_review) = Inr []"
    by simp_all
  from c7 have "0 < length (filtered_test [sample_review]) \<and> length (filtered_test [sample_review]) < 3000 \<longrightarrow>
            small_test_dataset rev [sample_review] = Inl IndexError"
    by simp
  with fte have c: "small_test_dataset rev [sample_review] = Inl IndexError" by simp
  from a b c ftv fte is_shuffle_rev show ?thesis by simp
qed



text \<open>
  C9. The confidence is the larger of two probabilities that sum to 1, so it is at least
  1/2, and the returned string shows at least 0.50.
\<close>

theorem C9_confidence_at_least_half:
  "fst (softmax (model text)) + snd (softmax (model text)) = 1 \<and>
   snd (predict model text) = max (fst (softmax (model text))) (snd (softmax (model text))) \<and>
   1 / 2 \<le> snd (predict model text) \<and>
   50 \<le> hundredths (snd (predict model text)) \<and>
   classify_text model text =
     (if fst (predict model text) = 1 then ''Positive'' else ''Negative'') @ '' ('' @
     format_2f (snd (predict model text)) @ '' confidence)''"
  using confidence_bounds [of model "text"] hundredths_confidence(1) [OF confidence_bounds]
    softmax_sum(1) [of "model text"]
  by (simp add: predict_eq classify_text_def case_prod_unfold)

theorem C9_confidence_at_least_half_witness:
  "snd (predict (\<lambda>t. (0, 0)) [104, 105]) = 1 / 2 \<and>
   1 / 2 \<le> snd (predict (\<lambda>t. (0, 0)) [104, 105]) \<and>
   50 \<le> hundredths (snd (predict (\<lambda>t. (0, 0)) [104, 105]))"
proof -
  have e: "snd (predict (\<lambda>t. (0, 0)) [104, 105]) = 1 / 2"
    by (simp add: predict_def softmax_def argmax_def item_def)
  from C9_confidence_at_least_half [of "\<lambda>t. (0, 0)" "[104, 105]"]
  have "1 / 2 \<le> snd (predict (\<lambda>t. (0, 0)) [104, 105])"
    and "50 \<le> hundredths (snd (predict (\<lambda>t. (0, 0)) [104, 105]))"
    by blast+
  with e show ?thesis by (intro conjI)
qed

end
